theory Spec2Isabelle
  imports Complex_Main "HOL-Library.Word"
begin

unbundle bit_operations_syntax

section \<open>Data model\<close>

text \<open>
  The dithering engine of \<^verbatim>\<open>pixforge.dithers\<close> works on NumPy arrays of shape
  \<open>(H, W, 3)\<close>. An array is modelled as a list of rows, a row as a list of pixels and a
  pixel as a triple of channel samples, so the third axis has length 3 by type.
  \<^item> \<^verbatim>\<open>uint8\<close> samples are \<open>8 word\<close>.
  \<^item> \<^verbatim>\<open>float32\<close> samples (the working buffers) are modelled as exact rationals: the
    model computes what the code computes when no floating-point operation rounds.
    The rounding error of IEEE arithmetic is outside this model.
  \<^item> Python integers, loop counters and array indices are \<open>int\<close>; an index is
    converted with \<open>nat\<close> where it reads or writes a list.
  \<^item> A call that may not return has an \<open>option\<close> result, \<open>None\<close> for not returning.
  \<^item> A raised exception is a value \<open>Inl e\<close> of a sum type.
\<close>

type_synonym uint8 = "8 word"
type_synonym float32 = rat
type_synonym 'a pixel = "'a \<times> 'a \<times> 'a"
type_synonym 'a image = "'a pixel list list"

datatype error = ValueError | ZeroDivisionError

definition pmap :: "('a \<Rightarrow> 'b) \<Rightarrow> 'a pixel \<Rightarrow> 'b pixel" where
  "pmap f p = (case p of (r, g, b) \<Rightarrow> (f r, f g, f b))"



text \<open>\<^verbatim>\<open>arr.astype(np.float32)\<close> on a \<^verbatim>\<open>uint8\<close> sample, and
  \<^verbatim>\<open>.astype(np.uint8)\<close> on a float sample (only ever applied to integral values
  that were clipped to \<open>[0, 255]\<close>).\<close>

definition astype_float32 :: "uint8 \<Rightarrow> float32" where
  "astype_float32 s = of_nat (unat s)"

definition astype_uint8 :: "float32 \<Rightarrow> uint8" where
  "astype_uint8 v = word_of_int \<lfloor>v\<rfloor>"

section \<open>Rounding and clipping\<close>

text \<open>\<^verbatim>\<open>np.rint\<close> (and Python 3's and Numba's one-argument \<^verbatim>\<open>round\<close>) round to the
  nearest integer and break ties towards the even integer.\<close>

definition round_half_even :: "rat \<Rightarrow> int" where
  "round_half_even x =
     (let f = \<lfloor>x\<rfloor>; d = x - of_int f
      in if d < 1 / 2 then f else if 1 / 2 < d then f + 1
         else if even f then f else f + 1)"

definition np_rint :: "float32 \<Rightarrow> float32" where
  "np_rint x = of_int (round_half_even x)"

text \<open>\<^verbatim>\<open>np.clip(a, a_min, a_max)\<close> is \<^verbatim>\<open>minimum(a_max, maximum(a, a_min))\<close>.\<close>

definition np_clip :: "'a::linorder \<Rightarrow> 'a \<Rightarrow> 'a \<Rightarrow> 'a" where
  "np_clip a_min a_max a = min a_max (max a a_min)"

section \<open>UniformQuantizer\<close>

text \<open>\<^verbatim>\<open>_quantize_none\<close> of \<^verbatim>\<open>dithers/__init__.py\<close> (and its copy in
  \<^verbatim>\<open>dithers/bayer.py\<close>) works elementwise; \<open>quantize_none_sample\<close> is what it does to
  one sample after \<^verbatim>\<open>astype(np.float32)\<close>.\<close>

definition quantize_none_sample :: "float32 \<Rightarrow> int \<Rightarrow> uint8" where
  "quantize_none_sample arrf L =
     (if L \<le> 1 then 0
      else let q = np_clip 0 (of_int (L - 1)) (np_rint (arrf * of_int (L - 1) / 255));
               out = astype_uint8 (np_clip 0 255 (np_rint (q * (255 / of_int (L - 1)))))
           in out)"

definition quantize_none :: "uint8 image \<Rightarrow> int \<Rightarrow> uint8 image" where
  "quantize_none arr L =
     map (map (pmap (\<lambda>s. quantize_none_sample (astype_float32 s) L))) arr"

text \<open>\<^verbatim>\<open>_quantize_levels\<close> of \<^verbatim>\<open>dithers/floyd.py\<close> (repeated in
  \<^verbatim>\<open>atkinson.py\<close> and \<^verbatim>\<open>sierra.py\<close>) quantizes one float pixel and stays in float.
  It has no guard for \<open>L = 1\<close>, where \<^verbatim>\<open>255.0 / (L - 1)\<close> raises; the callers below
  carry that branch.\<close>

definition quantize_levels_sample :: "float32 \<Rightarrow> int \<Rightarrow> float32" where
  "quantize_levels_sample v L =
     (let q = np_rint (v * of_int (L - 1) / 255);
          q = np_clip 0 (of_int (L - 1)) q;
          out = np_rint (q * (255 / of_int (L - 1)))
      in np_clip 0 255 out)"

definition quantize_levels :: "float32 pixel \<Rightarrow> int \<Rightarrow> float32 pixel" where
  "quantize_levels pixel L = pmap (\<lambda>v. quantize_levels_sample v L) pixel"


definition clamp :: "int \<Rightarrow> int \<Rightarrow> int \<Rightarrow> int" where
  "clamp x lo hi = min hi (max lo x)"

definition UniformQuantizer :: "(rat \<Rightarrow> int) \<Rightarrow> rat \<Rightarrow> int \<Rightarrow> int" where
  "UniformQuantizer rnd sample L =
     (if L \<le> 1 then 0
      else let level = clamp (rnd (sample * of_int (L - 1) / 255)) 0 (L - 1)
           in clamp (rnd (of_int level * 255 / of_int (L - 1))) 0 255)"

section \<open>LevelSelector\<close>

text \<open>\<^verbatim>\<open>_levels_from_num_colors\<close>. The starting value
  \<^verbatim>\<open>int(round(num_colors ** (1 / 3)))\<close> is the integer nearest to the cube root (a cube
  root of an integer is never half-way between two integers); \<open>round_cbrt\<close> finds it by
  search. The two \<^verbatim>\<open>while\<close> loops are \<open>levels_down\<close> and \<open>levels_up\<close>.\<close>

function round_cbrt_from :: "nat \<Rightarrow> int \<Rightarrow> int" where
  "round_cbrt_from r n =
     (if (2 * int r + 1) ^ 3 \<le> 8 * n then round_cbrt_from (Suc r) n else int r)"
  by pat_completeness auto
termination
proof (relation "measure (\<lambda>(r, n). nat (4 * n) - r)")
  show "wf (measure (\<lambda>(r, n). nat (4 * n) - r))" by simp
next
  fix r :: nat and n :: int
  assume a: "(2 * int r + 1) ^ 3 \<le> 8 * n"
  have "2 * int r + 1 \<le> (2 * int r + 1) ^ 3"
    by (rule self_le_power) simp_all
  with a have "int r < 4 * n" by linarith
  then show "((Suc r, n), (r, n)) \<in> measure (\<lambda>(r, n). nat (4 * n) - r)"
    by simp
qed

definition round_cbrt :: "int \<Rightarrow> int" where
  "round_cbrt n = round_cbrt_from 0 n"

function levels_down :: "int \<Rightarrow> int \<Rightarrow> int" where
  "levels_down L num_colors =
     (if L ^ 3 > num_colors \<and> L > 2 then levels_down (L - 1) num_colors else L)"
  by pat_completeness auto
termination
  by (relation "measure (\<lambda>(L, n). nat L)") auto

function levels_up :: "int \<Rightarrow> int \<Rightarrow> int" where
  "levels_up L num_colors =
     (if (L + 1) ^ 3 \<le> num_colors then levels_up (L + 1) num_colors else L)"
  by pat_completeness auto
termination
proof (relation "measure (\<lambda>(L, n). nat (\<bar>n\<bar> + 1 - L))")
  show "wf (measure (\<lambda>(L, n). nat (\<bar>n\<bar> + 1 - L)))" by simp
next
  fix L n :: int
  assume a: "(L + 1) ^ 3 \<le> n"
  have "L < \<bar>n\<bar>"
  proof (cases "1 \<le> L + 1")
    case True
    then have "L + 1 \<le> (L + 1) ^ 3" by (rule self_le_power) simp
    with a show ?thesis by linarith
  next
    case False
    then show ?thesis by linarith
  qed
  then show "((L + 1, n), (L, n)) \<in> measure (\<lambda>(L, n). nat (\<bar>n\<bar> + 1 - L))"
    by simp
qed

declare round_cbrt_from.simps [simp del] levels_down.simps [simp del] levels_up.simps [simp del]

definition levels_from_num_colors :: "int \<Rightarrow> error + int" where
  "levels_from_num_colors num_colors =
     (if num_colors < 2 then Inl ValueError
      else let L = round_cbrt num_colors;
               L = max 2 L;
               L = levels_down L num_colors;
               L = levels_up L num_colors
           in Inr (max 2 L))"

section \<open>Arrays and statements\<close>

text \<open>\<^verbatim>\<open>H, W, _ = arr.shape\<close>, \<^verbatim>\<open>range(n)\<close> and \<^verbatim>\<open>range(n - 1, -1, -1)\<close>.\<close>

definition height :: "'a image \<Rightarrow> int" where
  "height arr = int (length arr)"

definition width :: "'a image \<Rightarrow> int" where
  "width arr = (case arr of [] \<Rightarrow> 0 | row # _ \<Rightarrow> int (length row))"

definition py_range :: "int \<Rightarrow> int list" where
  "py_range n = map int [0..<nat n]"

definition py_range_down :: "int \<Rightarrow> int list" where
  "py_range_down n = rev (py_range n)"

text \<open>Reads and in-place writes of the working buffer. A statement is a function from
  the buffer to the updated buffer; \<open>block\<close> runs statements in order and \<open>if_then\<close> is
  an \<^verbatim>\<open>if\<close> without \<^verbatim>\<open>else\<close>. The code only indexes inside the array (every
  neighbour access is guarded), so indices are converted with \<open>nat\<close>.\<close>

type_synonym stmt = "float32 image \<Rightarrow> float32 image"

definition block :: "stmt list \<Rightarrow> stmt" where
  "block ss work = fold (\<lambda>s w. s w) ss work"

definition if_then :: "bool \<Rightarrow> stmt list \<Rightarrow> stmt" where
  "if_then c ss work = (if c then block ss work else work)"

definition get_ch :: "'a pixel \<Rightarrow> nat \<Rightarrow> 'a" where
  "get_ch p c = (case p of (r, g, b) \<Rightarrow> if c = 0 then r else if c = 1 then g else b)"

definition set_ch :: "'a pixel \<Rightarrow> nat \<Rightarrow> 'a \<Rightarrow> 'a pixel" where
  "set_ch p c v =
     (case p of (r, g, b) \<Rightarrow> if c = 0 then (v, g, b) else if c = 1 then (r, v, b) else (r, g, v))"

definition get_pixel :: "float32 image \<Rightarrow> int \<Rightarrow> int \<Rightarrow> float32 pixel" where
  "get_pixel work y x = work ! nat y ! nat x"

definition set_pixel :: "int \<Rightarrow> int \<Rightarrow> float32 pixel \<Rightarrow> stmt" where
  "set_pixel y x p work = work[nat y := (work ! nat y)[nat x := p]]"

definition get_sample :: "float32 image \<Rightarrow> int \<Rightarrow> int \<Rightarrow> nat \<Rightarrow> float32" where
  "get_sample work y x c = get_ch (get_pixel work y x) c"

definition set_sample :: "int \<Rightarrow> int \<Rightarrow> nat \<Rightarrow> float32 \<Rightarrow> stmt" where
  "set_sample y x c v work = set_pixel y x (set_ch (get_pixel work y x) c v) work"

definition add_sample :: "int \<Rightarrow> int \<Rightarrow> nat \<Rightarrow> float32 \<Rightarrow> stmt" where
  "add_sample y x c v work = set_sample y x c (get_sample work y x c + v) work"

definition padd :: "float32 pixel \<Rightarrow> float32 pixel \<Rightarrow> float32 pixel" where
  "padd p q = (case (p, q) of ((r, g, b), (r', g', b')) \<Rightarrow> (r + r', g + g', b + b'))"

definition psub :: "float32 pixel \<Rightarrow> float32 pixel \<Rightarrow> float32 pixel" where
  "psub p q = (case (p, q) of ((r, g, b), (r', g', b')) \<Rightarrow> (r - r', g - g', b - b'))"

definition pscale :: "float32 pixel \<Rightarrow> float32 \<Rightarrow> float32 pixel" where
  "pscale p k = pmap (\<lambda>v. v * k) p"

definition add_pixel :: "int \<Rightarrow> int \<Rightarrow> float32 pixel \<Rightarrow> stmt" where
  "add_pixel y x e work = set_pixel y x (padd (get_pixel work y x) e) work"

text \<open>In the pure-Python loops \<^verbatim>\<open>old = work[y, x]\<close> indexes a three-dimensional array
  with two integers. That is basic indexing: NumPy returns a view of the buffer, not a
  copy. A view is modelled as the position it refers to, and every use of it reads the
  buffer as it is at that moment.\<close>

type_synonym view = "int \<times> int"

definition deref :: "float32 image \<Rightarrow> view \<Rightarrow> float32 pixel" where
  "deref work v = get_pixel work (fst v) (snd v)"

text \<open>The last line of every diffusion method:
  \<^verbatim>\<open>np.clip(np.rint(work), 0, 255).astype(np.uint8)\<close>.\<close>

definition finish :: "float32 image \<Rightarrow> uint8 image" where
  "finish work = map (map (pmap (\<lambda>v. astype_uint8 (np_clip 0 255 (np_rint v))))) work"

definition to_float32 :: "uint8 image \<Rightarrow> float32 image" where
  "to_float32 arr = map (map (pmap astype_float32)) arr"

text \<open>The loop skeleton of the three Numba kernels:
  \<^verbatim>\<open>x = start; while x != stop: <body>; x += step_dir\<close>. Nothing in the loop itself
  bounds the number of iterations, so not returning is the value \<open>None\<close>.\<close>

partial_function (option) numba_while ::
  "(int \<Rightarrow> stmt) \<Rightarrow> int \<Rightarrow> int \<Rightarrow> int \<Rightarrow> float32 image \<Rightarrow> float32 image option" where
  "numba_while body x stop step_dir work =
     (if x \<noteq> stop then numba_while body (x + step_dir) stop step_dir (body x work)
      else Some work)"

declare numba_while.simps [code]

fun for_rows ::
  "(int \<Rightarrow> float32 image \<Rightarrow> float32 image option) \<Rightarrow> int list \<Rightarrow> float32 image
     \<Rightarrow> float32 image option" where
  "for_rows f [] work = Some work"
| "for_rows f (y # ys) work =
     (case f y work of None \<Rightarrow> None | Some work' \<Rightarrow> for_rows f ys work')"

text \<open>The clamp of a level index in the kernels:
  \<^verbatim>\<open>if q < 0: q = 0 elif q > (L - 1): q = L - 1\<close>.\<close>

definition clamp_q :: "int \<Rightarrow> int \<Rightarrow> int" where
  "clamp_q q L = (if q < 0 then 0 else if q > L - 1 then L - 1 else q)"

section \<open>Floyd-Steinberg\<close>

text \<open>One iteration of the \<^verbatim>\<open>while\<close> loop of \<^verbatim>\<open>_floyd_impl\<close> (without the final
  \<^verbatim>\<open>x += step_dir\<close>). The kernel reads the three channels into scalars.\<close>

definition floyd_impl_pixel :: "int \<Rightarrow> int \<Rightarrow> int \<Rightarrow> int \<Rightarrow> int \<Rightarrow> int \<Rightarrow> stmt" where
  "floyd_impl_pixel H W L y step_dir x work =
     (let step = 255 / of_int (L - 1);
          old0 = get_sample work y x 0;
          old1 = get_sample work y x 1;
          old2 = get_sample work y x 2;
          q0 = clamp_q (round_half_even (old0 * of_int (L - 1) / 255)) L;
          q1 = clamp_q (round_half_even (old1 * of_int (L - 1) / 255)) L;
          q2 = clamp_q (round_half_even (old2 * of_int (L - 1) / 255)) L;
          new0 = of_int (round_half_even (of_int q0 * step));
          new1 = of_int (round_half_even (of_int q1 * step));
          new2 = of_int (round_half_even (of_int q2 * step));
          err0 = old0 - new0;
          err1 = old1 - new1;
          err2 = old2 - new2;
          xn1 = x + step_dir;
          xp1 = x - step_dir
      in block
           [set_sample y x 0 new0,
            set_sample y x 1 new1,
            set_sample y x 2 new2,
            if_then (0 \<le> xn1 \<and> xn1 < W)
              [add_sample y xn1 0 (err0 * (7 / 16)),
               add_sample y xn1 1 (err1 * (7 / 16)),
               add_sample y xn1 2 (err2 * (7 / 16))],
            if_then (y + 1 < H)
              [if_then (0 \<le> xp1 \<and> xp1 < W)
                 [add_sample (y + 1) xp1 0 (err0 * (3 / 16)),
                  add_sample (y + 1) xp1 1 (err1 * (3 / 16)),
                  add_sample (y + 1) xp1 2 (err2 * (3 / 16))],
               add_sample (y + 1) x 0 (err0 * (5 / 16)),
               add_sample (y + 1) x 1 (err1 * (5 / 16)),
               add_sample (y + 1) x 2 (err2 * (5 / 16)),
               if_then (0 \<le> xn1 \<and> xn1 < W)
                 [add_sample (y + 1) xn1 0 (err0 * (1 / 16)),
                  add_sample (y + 1) xn1 1 (err1 * (1 / 16)),
                  add_sample (y + 1) xn1 2 (err2 * (1 / 16))]]]
           work)"

text \<open>The row loop shared by the kernels: the scan direction of row \<open>y\<close> and the
  \<^verbatim>\<open>while\<close> loop over its pixels.\<close>

definition numba_rows ::
  "(int \<Rightarrow> int \<Rightarrow> int \<Rightarrow> stmt) \<Rightarrow> int \<Rightarrow> int \<Rightarrow> bool \<Rightarrow> float32 image \<Rightarrow> float32 image option"
  where
  "numba_rows pixel H W serpentine work =
     for_rows
       (\<lambda>y work.
          let (start, stop, step_dir) =
                (if serpentine \<and> y mod 2 = 1 then (W - 1, - 1, - 1) else (0, W, 1))
          in numba_while (pixel y step_dir) start stop step_dir work)
       (py_range H) work"

text \<open>The frame of a kernel (\<^verbatim>\<open>_floyd_impl\<close>, \<^verbatim>\<open>_atk_impl\<close>, \<^verbatim>\<open>_sierra_impl\<close>):
  \<^verbatim>\<open>H, W, _ = work.shape\<close>, then \<^verbatim>\<open>step = 255.0 / (L - 1)\<close>, which raises for
  \<open>L = 1\<close> before the loops start, then the loops.\<close>

definition numba_kernel ::
  "(int \<Rightarrow> int \<Rightarrow> int \<Rightarrow> int \<Rightarrow> int \<Rightarrow> int \<Rightarrow> stmt) \<Rightarrow> float32 image \<Rightarrow> int \<Rightarrow> bool
     \<Rightarrow> (error + float32 image) option" where
  "numba_kernel pixel work L serpentine =
     (let H = height work; W = width work
      in if L = 1 then Some (Inl ZeroDivisionError)
         else map_option Inr (numba_rows (pixel H W L) H W serpentine work))"

definition floyd_impl :: "float32 image \<Rightarrow> int \<Rightarrow> bool \<Rightarrow> (error + float32 image) option" where
  "floyd_impl work L serpentine = numba_kernel floyd_impl_pixel work L serpentine"

text \<open>The body of the inner \<^verbatim>\<open>for x in x_range\<close> loop of the pure-Python branch of
  \<^verbatim>\<open>dither_floyd\<close>. \<open>old\<close> is a view, so \<^verbatim>\<open>err = old - new\<close> reads the buffer after
  \<^verbatim>\<open>work[y, x] = new\<close> has written it.\<close>

definition floyd_loop_pixel :: "int \<Rightarrow> int \<Rightarrow> int \<Rightarrow> int \<Rightarrow> int \<Rightarrow> int \<Rightarrow> stmt" where
  "floyd_loop_pixel H W L y dir_sign x work =
     (let old = (y, x);
          new = quantize_levels (deref work old) L;
          work = set_pixel y x new work;
          err = psub (deref work old) new;
          nx = x + dir_sign;
          px = x - dir_sign
      in block
           [if_then (0 \<le> nx \<and> nx < W) [add_pixel y nx (pscale err (7 / 16))],
            if_then (y + 1 < H)
              [if_then (0 \<le> px \<and> px < W) [add_pixel (y + 1) px (pscale err (3 / 16))],
               add_pixel (y + 1) x (pscale err (5 / 16)),
               if_then (0 \<le> nx \<and> nx < W) [add_pixel (y + 1) nx (pscale err (1 / 16))]]]
           work)"

text \<open>The two nested \<^verbatim>\<open>for\<close> loops shared by the pure-Python branches.\<close>

definition python_rows ::
  "(int \<Rightarrow> int \<Rightarrow> int \<Rightarrow> stmt) \<Rightarrow> int \<Rightarrow> int \<Rightarrow> bool \<Rightarrow> stmt" where
  "python_rows pixel H W serpentine work =
     fold
       (\<lambda>y work.
          let (x_range, dir_sign) =
                (if serpentine \<and> y mod 2 = 1 then (py_range_down W, - 1) else (py_range W, 1))
          in fold (pixel y dir_sign) x_range work)
       (py_range H) work"

text \<open>The frame of \<^verbatim>\<open>dither_floyd\<close>, \<^verbatim>\<open>dither_atkinson\<close> and \<^verbatim>\<open>dither_sierra\<close>:
  copy the input into a float buffer, run the kernel when Numba was imported
  (\<open>has_numba\<close>) and the pure-Python loops otherwise, then round and clip. In the
  pure-Python branch \<^verbatim>\<open>_quantize_levels\<close> raises for \<open>L = 1\<close> at the first pixel, if
  there is one.\<close>

definition diffusion_method ::
  "(int \<Rightarrow> int \<Rightarrow> int \<Rightarrow> int \<Rightarrow> int \<Rightarrow> int \<Rightarrow> stmt) \<Rightarrow> (int \<Rightarrow> int \<Rightarrow> int \<Rightarrow> int \<Rightarrow> int \<Rightarrow> int \<Rightarrow> stmt)
     \<Rightarrow> bool \<Rightarrow> uint8 image \<Rightarrow> int \<Rightarrow> bool \<Rightarrow> (error + uint8 image) option" where
  "diffusion_method impl_pixel loop_pixel has_numba arr L serpentine =
     (let H = height arr; W = width arr;
          work = to_float32 arr;
          result =
            (if has_numba then numba_kernel impl_pixel work L serpentine
             else if L = 1 \<and> 0 < H \<and> 0 < W then Some (Inl ZeroDivisionError)
             else Some (Inr (python_rows (loop_pixel H W L) H W serpentine work)))
      in map_option (map_sum id finish) result)"

definition dither_floyd :: "bool \<Rightarrow> uint8 image \<Rightarrow> int \<Rightarrow> bool \<Rightarrow> (error + uint8 image) option" where
  "dither_floyd has_numba arr L serpentine =
     diffusion_method floyd_impl_pixel floyd_loop_pixel has_numba arr L serpentine"

section \<open>Atkinson\<close>

definition atk_impl_pixel :: "int \<Rightarrow> int \<Rightarrow> int \<Rightarrow> int \<Rightarrow> int \<Rightarrow> int \<Rightarrow> stmt" where
  "atk_impl_pixel H W L y step_dir x work =
     (let step = 255 / of_int (L - 1);
          old0 = get_sample work y x 0;
          old1 = get_sample work y x 1;
          old2 = get_sample work y x 2;
          q0 = clamp_q (round_half_even (old0 * of_int (L - 1) / 255)) L;
          q1 = clamp_q (round_half_even (old1 * of_int (L - 1) / 255)) L;
          q2 = clamp_q (round_half_even (old2 * of_int (L - 1) / 255)) L;
          new0 = of_int (round_half_even (of_int q0 * step));
          new1 = of_int (round_half_even (of_int q1 * step));
          new2 = of_int (round_half_even (of_int q2 * step));
          err0 = old0 - new0;
          err1 = old1 - new1;
          err2 = old2 - new2;
          xn1 = x + step_dir;
          xn2 = x + 2 * step_dir;
          xp1 = x - step_dir
      in block
           [set_sample y x 0 new0,
            set_sample y x 1 new1,
            set_sample y x 2 new2,
            if_then (0 \<le> xn1 \<and> xn1 < W)
              [add_sample y xn1 0 (err0 * (1 / 8)),
               add_sample y xn1 1 (err1 * (1 / 8)),
               add_sample y xn1 2 (err2 * (1 / 8))],
            if_then (0 \<le> xn2 \<and> xn2 < W)
              [add_sample y xn2 0 (err0 * (1 / 8)),
               add_sample y xn2 1 (err1 * (1 / 8)),
               add_sample y xn2 2 (err2 * (1 / 8))],
            if_then (y + 1 < H)
              [if_then (0 \<le> xp1 \<and> xp1 < W)
                 [add_sample (y + 1) xp1 0 (err0 * (1 / 8)),
                  add_sample (y + 1) xp1 1 (err1 * (1 / 8)),
                  add_sample (y + 1) xp1 2 (err2 * (1 / 8))],
               add_sample (y + 1) x 0 (err0 * (1 / 8)),
               add_sample (y + 1) x 1 (err1 * (1 / 8)),
               add_sample (y + 1) x 2 (err2 * (1 / 8)),
               if_then (0 \<le> xn1 \<and> xn1 < W)
                 [add_sample (y + 1) xn1 0 (err0 * (1 / 8)),
                  add_sample (y + 1) xn1 1 (err1 * (1 / 8)),
                  add_sample (y + 1) xn1 2 (err2 * (1 / 8))]],
            if_then (y + 2 < H)
              [add_sample (y + 2) x 0 (err0 * (1 / 8)),
               add_sample (y + 2) x 1 (err1 * (1 / 8)),
               add_sample (y + 2) x 2 (err2 * (1 / 8))]]
           work)"

definition atk_impl :: "float32 image \<Rightarrow> int \<Rightarrow> bool \<Rightarrow> (error + float32 image) option" where
  "atk_impl work L serpentine = numba_kernel atk_impl_pixel work L serpentine"



section \<open>Sierra-3\<close>

definition sierra_impl_pixel :: "int \<Rightarrow> int \<Rightarrow> int \<Rightarrow> int \<Rightarrow> int \<Rightarrow> int \<Rightarrow> stmt" where
  "sierra_impl_pixel H W L y step_dir x work =
     (let step = 255 / of_int (L - 1);
          old0 = get_sample work y x 0;
          old1 = get_sample work y x 1;
          old2 = get_sample work y x 2;
          q0 = clamp_q (round_half_even (old0 * of_int (L - 1) / 255)) L;
          q1 = clamp_q (round_half_even (old1 * of_int (L - 1) / 255)) L;
          q2 = clamp_q (round_half_even (old2 * of_int (L - 1) / 255)) L;
          new0 = of_int (round_half_even (of_int q0 * step));
          new1 = of_int (round_half_even (of_int q1 * step));
          new2 = of_int (round_half_even (of_int q2 * step));
          err0 = old0 - new0;
          err1 = old1 - new1;
          err2 = old2 - new2;
          xn1 = x + step_dir;
          xn2 = x + 2 * step_dir;
          xp2 = x - 2 * step_dir;
          xp1 = x - step_dir
      in block
           [set_sample y x 0 new0,
            set_sample y x 1 new1,
            set_sample y x 2 new2,
            if_then (0 \<le> xn1 \<and> xn1 < W)
              [add_sample y xn1 0 (err0 * (5 / 32)),
               add_sample y xn1 1 (err1 * (5 / 32)),
               add_sample y xn1 2 (err2 * (5 / 32))],
            if_then (0 \<le> xn2 \<and> xn2 < W)
              [add_sample y xn2 0 (err0 * (3 / 32)),
               add_sample y xn2 1 (err1 * (3 / 32)),
               add_sample y xn2 2 (err2 * (3 / 32))],
            if_then (y + 1 < H)
              [if_then (0 \<le> xp2 \<and> xp2 < W)
                 [add_sample (y + 1) xp2 0 (err0 * (2 / 32)),
                  add_sample (y + 1) xp2 1 (err1 * (2 / 32)),
                  add_sample (y + 1) xp2 2 (err2 * (2 / 32))],
               if_then (0 \<le> xp1 \<and> xp1 < W)
                 [add_sample (y + 1) xp1 0 (err0 * (4 / 32)),
                  add_sample (y + 1) xp1 1 (err1 * (4 / 32)),
                  add_sample (y + 1) xp1 2 (err2 * (4 / 32))],
               add_sample (y + 1) x 0 (err0 * (5 / 32)),
               add_sample (y + 1) x 1 (err1 * (5 / 32)),
               add_sample (y + 1) x 2 (err2 * (5 / 32)),
               if_then (0 \<le> xn1 \<and> xn1 < W)
                 [add_sample (y + 1) xn1 0 (err0 * (4 / 32)),
                  add_sample (y + 1) xn1 1 (err1 * (4 / 32)),
                  add_sample (y + 1) xn1 2 (err2 * (4 / 32))],
               if_then (0 \<le> xn2 \<and> xn2 < W)
                 [add_sample (y + 1) xn2 0 (err0 * (2 / 32)),
                  add_sample (y + 1) xn2 1 (err1 * (2 / 32)),
                  add_sample (y + 1) xn2 2 (err2 * (2 / 32))]],
            if_then (y + 2 < H)
              [if_then (0 \<le> xp1 \<and> xp1 < W)
                 [add_sample (y + 2) xp1 0 (err0 * (2 / 32)),
                  add_sample (y + 2) xp1 1 (err1 * (2 / 32)),
                  add_sample (y + 2) xp1 2 (err2 * (2 / 32))],
               add_sample (y + 2) x 0 (err0 * (3 / 32)),
               add_sample (y + 2) x 1 (err1 * (3 / 32)),
               add_sample (y + 2) x 2 (err2 * (3 / 32)),
               if_then (0 \<le> xn1 \<and> xn1 < W)
                 [add_sample (y + 2) xn1 0 (err0 * (2 / 32)),
                  add_sample (y + 2) xn1 1 (err1 * (2 / 32)),
                  add_sample (y + 2) xn1 2 (err2 * (2 / 32))]]]
           work)"

definition sierra_impl :: "float32 image \<Rightarrow> int \<Rightarrow> bool \<Rightarrow> (error + float32 image) option" where
  "sierra_impl work L serpentine = numba_kernel sierra_impl_pixel work L serpentine"



section \<open>Burkes\<close>






section \<open>Ordered dithering\<close>

text \<open>\<^verbatim>\<open>_bayer_matrix\<close>. The inner \<^verbatim>\<open>build\<close> recurses on \<^verbatim>\<open>k // 2\<close> until
  \<^verbatim>\<open>k == 1\<close>; nothing in it bounds the recursion, so not returning is the value
  \<open>None\<close>. \<^verbatim>\<open>np.block\<close> puts four equal blocks side by side and on top of each other.\<close>

definition madd :: "int list list \<Rightarrow> int \<Rightarrow> int list list" where
  "madd a k = map (map (\<lambda>v. v + k)) a"

definition np_block :: "'a list list \<Rightarrow> 'a list list \<Rightarrow> 'a list list \<Rightarrow> 'a list list \<Rightarrow> 'a list list" where
  "np_block a b c d = map2 (@) a b @ map2 (@) c d"

partial_function (option) build :: "int \<Rightarrow> int list list option" where
  "build k =
     (if k = 1 then Some [[0]]
      else Option.bind (build (k div 2))
             (\<lambda>prev. Some (np_block (madd (map (map (\<lambda>v. 4 * v)) prev) 0)
                                     (madd (map (map (\<lambda>v. 4 * v)) prev) 2)
                                     (madd (map (map (\<lambda>v. 4 * v)) prev) 3)
                                     (madd (map (map (\<lambda>v. 4 * v)) prev) 1))))"

declare build.simps [code]

definition bayer_matrix :: "int \<Rightarrow> (error + int list list) option" where
  "bayer_matrix n =
     (if n AND (n - 1) \<noteq> 0 \<or> n \<le> 0 then Some (Inl ValueError)
      else map_option Inr (build n))"

text \<open>\<^verbatim>\<open>np.tile(T, (ty, tx))\<close> for a two-dimensional \<open>T\<close>.\<close>

definition np_tile :: "'a list list \<Rightarrow> int \<Rightarrow> int \<Rightarrow> 'a list list" where
  "np_tile A ry rx = concat (replicate (nat ry) (map (\<lambda>row. concat (replicate (nat rx) row)) A))"

text \<open>\<^verbatim>\<open>dither_bayer\<close>; its parameter \<^verbatim>\<open>size\<close> is called \<open>n\<close> here.
  \<open>bayer_sample\<close> is the body of the \<^verbatim>\<open>for c in range(3)\<close> loop on one sample
  \<open>v\<close> with its threshold \<open>t\<close>; the loop does the same to the three channel planes.\<close>

definition bayer_sample :: "int \<Rightarrow> float32 \<Rightarrow> float32 \<Rightarrow> uint8" where
  "bayer_sample L t v =
     (let step = 255 / of_int (L - 1);
          v_bias = v + t * step;
          q = np_clip 0 (of_int (L - 1)) (of_int \<lfloor>v_bias / 255 * of_int L\<rfloor>)
      in astype_uint8 (np_clip 0 255 (np_rint (q * step))))"


definition zeros_like :: "uint8 image \<Rightarrow> uint8 image" where
  "zeros_like arr = map (map (\<lambda>p. (0, 0, 0))) arr"

definition dither_bayer :: "uint8 image \<Rightarrow> int \<Rightarrow> int \<Rightarrow> (error + uint8 image) option" where
  "dither_bayer arr L n =
     (if L < 2 then Some (Inr (quantize_none arr 2))
      else let H = height arr; W = width arr
           in case bayer_matrix n of
                None \<Rightarrow> None
              | Some (Inl e) \<Rightarrow> Some (Inl e)
              | Some (Inr M) \<Rightarrow>
                  let n2 = of_int (n * n);
                      T = map (map (\<lambda>m. of_int m / n2 - 1 / 2)) M;
                      ty = (H + n - 1) div n;
                      tx = (W + n - 1) div n;
                      thresh = map (take (nat W)) (take (nat H) (np_tile T ty tx));
                      arrf = to_float32 arr
                  in if L = 1 then Some (Inr (zeros_like arr))
                     else Some (Inr (map2 (\<lambda>trow row. map2 (\<lambda>t p. pmap (bayer_sample L t) p) trow row)
                                       thresh arrf)))"

section \<open>DitherDispatcher\<close>




section \<open>Predicates of the proofs\<close>

text \<open>The predicates below occur in the proofs about the diffusion loops only.
  \<open>is_level L v\<close>: \<open>v\<close> is one of the \<open>L\<close> output levels \<open>round(i 255 / (L - 1))\<close>.
  \<open>keeps V s\<close>: the statement \<open>s\<close> keeps the shape of the buffer and the cells of \<open>V\<close>.
  \<open>seen_before y dir x\<close> are the cells visited before pixel \<open>(y, x)\<close> of a scan that
  runs row \<open>y\<close> in direction \<open>dir\<close>, \<open>seen\<close> adds \<open>(y, x)\<close> itself, and \<open>rows_done y\<close>
  are the rows above \<open>y\<close>. \<open>pixel_ok L f\<close>: the loop body \<open>f\<close> leaves a level at its
  pixel and touches no visited cell.\<close>

definition keeps :: "(nat \<times> nat \<Rightarrow> bool) \<Rightarrow> stmt \<Rightarrow> bool" where
  "keeps V s \<longleftrightarrow>
     (\<forall>w. map length (s w) = map length w \<and> (\<forall>y x. V (y, x) \<longrightarrow> s w ! y ! x = w ! y ! x))"









section \<open>Properties of rounding\<close>

lemma round_half_even_cases:
  "round_half_even x = \<lfloor>x\<rfloor> \<or> round_half_even x = \<lfloor>x\<rfloor> + 1"
  by (simp add: round_half_even_def Let_def)

lemma round_half_even_upper: "of_int (round_half_even x) \<le> x + 1 / 2"
proof -
  have f: "of_int \<lfloor>x\<rfloor> \<le> x" by simp
  have "round_half_even x = \<lfloor>x\<rfloor> \<or> (1 / 2 \<le> x - of_int \<lfloor>x\<rfloor> \<and> round_half_even x = \<lfloor>x\<rfloor> + 1)"
    by (auto simp: round_half_even_def Let_def)
  then show ?thesis
  proof
    assume "round_half_even x = \<lfloor>x\<rfloor>"
    then have "(of_int (round_half_even x) :: rat) = of_int \<lfloor>x\<rfloor>" by simp
    with f show ?thesis by linarith
  next
    assume "1 / 2 \<le> x - of_int \<lfloor>x\<rfloor> \<and> round_half_even x = \<lfloor>x\<rfloor> + 1"
    then show ?thesis by simp
  qed
qed

lemma round_half_even_lower: "x - 1 / 2 \<le> of_int (round_half_even x)"
proof -
  have f: "x < of_int \<lfloor>x\<rfloor> + 1" by linarith
  have "round_half_even x = \<lfloor>x\<rfloor> + 1 \<or> (x - of_int \<lfloor>x\<rfloor> \<le> 1 / 2 \<and> round_half_even x = \<lfloor>x\<rfloor>)"
    by (auto simp: round_half_even_def Let_def)
  then show ?thesis
  proof
    assume "round_half_even x = \<lfloor>x\<rfloor> + 1"
    then have "(of_int (round_half_even x) :: rat) = of_int \<lfloor>x\<rfloor> + 1" by simp
    with f show ?thesis by linarith
  next
    assume "x - of_int \<lfloor>x\<rfloor> \<le> 1 / 2 \<and> round_half_even x = \<lfloor>x\<rfloor>"
    then show ?thesis by simp
  qed
qed

lemma round_half_even_near:
  assumes "\<bar>x - of_int k\<bar> < 1 / 2"
  shows "round_half_even x = k"
proof -
  have u: "of_int (round_half_even x) \<le> x + 1 / 2" by (rule round_half_even_upper)
  have l: "x - 1 / 2 \<le> of_int (round_half_even x)" by (rule round_half_even_lower)
  from assms u have "(of_int (round_half_even x) :: rat) < of_int k + 1" by linarith
  then have "(of_int (round_half_even x) :: rat) < of_int (k + 1)" by simp
  then have a: "round_half_even x < k + 1" by (simp only: of_int_less_iff)
  from assms l have "(of_int k :: rat) - 1 < of_int (round_half_even x)" by linarith
  then have "(of_int (k - 1) :: rat) < of_int (round_half_even x)" by simp
  then have b: "k - 1 < round_half_even x" by (simp only: of_int_less_iff)
  from a b show ?thesis by linarith
qed

lemma round_half_even_of_int [simp]: "round_half_even (of_int k) = k"
  by (rule round_half_even_near) simp

lemma round_half_even_ge:
  assumes "of_int a \<le> x"
  shows "a \<le> round_half_even x"
proof -
  from assms have "a \<le> \<lfloor>x\<rfloor>" by (simp add: le_floor_iff)
  with round_half_even_cases [of x] show ?thesis by linarith
qed

lemma round_half_even_le:
  assumes "x \<le> of_int b"
  shows "round_half_even x \<le> b"
proof (cases "x = of_int b")
  case True
  then show ?thesis by simp
next
  case False
  with assms have "x < of_int b" by simp
  then have "\<lfloor>x\<rfloor> < b" by (simp add: floor_less_iff)
  with round_half_even_cases [of x] show ?thesis by linarith
qed

section \<open>The quantizer against its specification\<close>

lemma uint_astype_uint8:
  assumes "0 \<le> k" "k \<le> 255"
  shows "uint (astype_uint8 (of_int k)) = k"
proof -
  have "uint (word_of_int k :: 8 word) = k mod 2 ^ 8"
    by (simp add: uint_word_of_int take_bit_eq_mod)
  with assms show ?thesis by (simp add: astype_uint8_def)
qed

lemma np_clip_of_int:
  "np_clip (of_int a) (of_int b) (of_int x :: rat) = of_int (clamp x a b)"
  by (simp add: np_clip_def clamp_def max.commute)

lemma clamp_bounds: "lo \<le> hi \<Longrightarrow> lo \<le> clamp x lo hi \<and> clamp x lo hi \<le> hi"
  by (simp add: clamp_def)

lemma clamp_id: "lo \<le> x \<Longrightarrow> x \<le> hi \<Longrightarrow> clamp x lo hi = x"
  by (simp add: clamp_def)


lemma UniformQuantizer_range:
  "0 \<le> UniformQuantizer rnd v L \<and> UniformQuantizer rnd v L \<le> 255"
  by (simp add: UniformQuantizer_def Let_def clamp_def)

lemma quantize_none_sample_eq:
  "uint (quantize_none_sample v L) = UniformQuantizer round_half_even v L"
proof (cases "L \<le> 1")
  case True
  then show ?thesis by (simp add: quantize_none_sample_def UniformQuantizer_def)
next
  case False
  have c: "np_clip 0 (of_int L - 1) (of_int x :: rat) = of_int (clamp x 0 (L - 1))" for x
    using np_clip_of_int [of 0 "L - 1" x] by simp
  have d: "np_clip 0 255 (of_int x :: rat) = of_int (clamp x 0 255)" for x
    using np_clip_of_int [of 0 255 x] by simp
  have "quantize_none_sample v L = astype_uint8 (of_int (UniformQuantizer round_half_even v L))"
    using False
    by (simp add: quantize_none_sample_def UniformQuantizer_def Let_def np_rint_def c d)
  then show ?thesis
    using UniformQuantizer_range [of round_half_even v L] by (simp add: uint_astype_uint8)
qed

lemma UniformQuantizer_level:
  assumes "2 \<le> L"
  shows "\<exists>k. 0 \<le> k \<and> k \<le> L - 1 \<and>
           UniformQuantizer round_half_even v L = round_half_even (of_int k * 255 / of_int (L - 1))"
proof -
  define k where "k = clamp (round_half_even (v * of_int (L - 1) / 255)) 0 (L - 1)"
  from assms have kb: "0 \<le> k" "k \<le> L - 1" by (simp_all add: k_def clamp_def)
  define n :: rat where "n = of_int (L - 1)"
  from assms have n: "1 \<le> n" unfolding n_def by simp
  have k0: "(0::rat) \<le> of_int k" and kn: "of_int k \<le> n"
    using kb n_def by simp_all
  have lo: "of_int 0 \<le> of_int k * 255 / n"
    using k0 n by simp
  have "of_int k * 255 \<le> n * 255" using kn by simp
  then have "of_int k * 255 / n \<le> 255" using n by (simp add: field_simps)
  then have hi: "of_int k * 255 / n \<le> of_int 255" by simp
  have r0: "0 \<le> round_half_even (of_int k * 255 / n)" by (rule round_half_even_ge [OF lo])
  have r1: "round_half_even (of_int k * 255 / n) \<le> 255" by (rule round_half_even_le [OF hi])
  have "UniformQuantizer round_half_even v L = clamp (round_half_even (of_int k * 255 / n)) 0 255"
    using assms by (simp add: UniformQuantizer_def Let_def k_def n_def)
  with r0 r1 have "UniformQuantizer round_half_even v L = round_half_even (of_int k * 255 / n)"
    by (simp add: clamp_id)
  with kb show ?thesis unfolding n_def by blast
qed

lemma UniformQuantizer_idem:
  assumes L: "2 \<le> L"
  shows "UniformQuantizer round_half_even (of_int (UniformQuantizer round_half_even u L)) L
           = UniformQuantizer round_half_even u L"
proof -
  define v where "v = UniformQuantizer round_half_even u L"
  define n :: rat where "n = of_int (L - 1)"
  from L have n: "1 \<le> n" unfolding n_def by simp
  obtain k where kb: "0 \<le> k" "k \<le> L - 1" and vk: "v = round_half_even (of_int k * 255 / n)"
    using UniformQuantizer_level [OF L, of u] unfolding v_def n_def by blast
  have vr: "0 \<le> v" "v \<le> 255"
    using UniformQuantizer_range [of round_half_even u L] unfolding v_def by simp_all
  have near: "\<bar>of_int v - of_int k * 255 / n\<bar> \<le> (1 / 2 :: rat)"
    using round_half_even_upper [of "of_int k * 255 / n"]
      round_half_even_lower [of "of_int k * 255 / n"] unfolding vk by linarith
  have uq: "UniformQuantizer round_half_even (of_int v) L =
        clamp (round_half_even (of_int (clamp (round_half_even (of_int v * n / 255)) 0 (L - 1)) * 255 / n)) 0 255"
    using L by (simp add: UniformQuantizer_def Let_def n_def)
  have "UniformQuantizer round_half_even (of_int v) L = v"
  proof (cases "n < 255")
    case True
    have e: "of_int v * n / 255 - of_int k = (of_int v - of_int k * 255 / n) * (n / 255)"
      using n by (simp add: field_simps)
    have "\<bar>(of_int v - of_int k * 255 / n) * (n / 255)\<bar> = \<bar>of_int v - of_int k * 255 / n\<bar> * (n / 255)"
      by (rule abs_mult_pos [symmetric]) (use n in simp)
    then have "\<bar>of_int v * n / 255 - of_int k\<bar> = \<bar>of_int v - of_int k * 255 / n\<bar> * (n / 255)"
      by (simp only: e)
    also have "\<dots> \<le> 1 / 2 * (n / 255)"
      using near n by (intro mult_right_mono) simp_all
    also have "\<dots> < 1 / 2" using True by simp
    finally have r: "round_half_even (of_int v * n / 255) = k"
      by (rule round_half_even_near)
    show ?thesis
      by (simp only: uq r clamp_id [OF kb] vk [symmetric] clamp_id [OF vr])
  next
    case False
    then have n255: "255 \<le> n" by simp
    define k' where "k' = round_half_even (of_int v * n / 255)"
    have v0: "(0::rat) \<le> of_int v" and v1: "(of_int v :: rat) \<le> 255" using vr by simp_all
    have "of_int 0 \<le> of_int v * n / 255" using v0 n by simp
    then have k0: "0 \<le> k'" unfolding k'_def by (rule round_half_even_ge)
    have "of_int v * n \<le> 255 * n" using v1 n by (intro mult_right_mono) simp_all
    then have "of_int v * n / 255 \<le> of_int (L - 1)" unfolding n_def by simp
    then have k1: "k' \<le> L - 1" unfolding k'_def by (rule round_half_even_le)
    have near': "\<bar>of_int k' - of_int v * n / 255\<bar> \<le> (1 / 2 :: rat)"
      using round_half_even_upper [of "of_int v * n / 255"]
        round_half_even_lower [of "of_int v * n / 255"] unfolding k'_def by linarith
    have e: "of_int k' * 255 / n - of_int v = (of_int k' - of_int v * n / 255) * (255 / n)"
      using n by (simp add: field_simps)
    have "round_half_even (of_int k' * 255 / n) = v"
    proof (cases "n = 255")
      case True
      with near' have "\<bar>(of_int k' :: rat) - of_int v\<bar> \<le> 1 / 2" by simp
      then have "\<bar>(of_int (k' - v) :: rat)\<bar> < 1" by simp
      then have "\<bar>k' - v\<bar> < 1" by (simp only: of_int_abs [symmetric] of_int_less_1_iff)
      then have "k' = v" by simp
      with True show ?thesis by simp
    next
      case False
      with n255 have g: "255 < n" by simp
      have "\<bar>(of_int k' - of_int v * n / 255) * (255 / n)\<bar> = \<bar>of_int k' - of_int v * n / 255\<bar> * (255 / n)"
        by (rule abs_mult_pos [symmetric]) (use n in simp)
      then have "\<bar>of_int k' * 255 / n - of_int v\<bar> = \<bar>of_int k' - of_int v * n / 255\<bar> * (255 / n)"
        by (simp only: e)
      also have "\<dots> \<le> 1 / 2 * (255 / n)"
        using near' n by (intro mult_right_mono) simp_all
      also have "\<dots> < 1 / 2" using g by simp
      finally show ?thesis by (rule round_half_even_near)
    qed
    then show ?thesis
      by (simp only: uq k'_def [symmetric] clamp_id [OF k0 k1] clamp_id [OF vr])
  qed
  then show ?thesis unfolding v_def .
qed




text \<open>
  C9. For every \<open>L \<ge> 2\<close> and every \<open>u\<close> in \<open>[0, 255]\<close>: if \<open>v\<close> is the output of the
  uniform quantizer for \<open>u\<close>, then quantizing \<open>v\<close> with the same \<open>L\<close> returns \<open>v\<close>.
\<close>

theorem quantize_none_idempotent:
  assumes "2 \<le> L" and "0 \<le> u" and "u \<le> 255" and "v = quantize_none_sample u L"
  shows "quantize_none_sample (astype_float32 v) L = v"
proof -
  have "uint (quantize_none_sample (of_int (uint v)) L) = uint v"
    unfolding quantize_none_sample_eq assms(4)
    by (rule UniformQuantizer_idem [OF assms(1)])
  then have "quantize_none_sample (of_int (uint v)) L = v"
    by (simp only: word_uint_eq_iff)
  moreover have "astype_float32 v = of_int (uint v)"
    by (simp add: astype_float32_def)
  ultimately show ?thesis by simp
qed

theorem quantize_none_idempotent_witness:
  "(2::int) \<le> 7 \<and> (0::rat) \<le> 100 \<and> (100::rat) \<le> 255 \<and>
   quantize_none_sample 100 7 = 85 \<and> quantize_none_sample (astype_float32 85) 7 = 85"
proof -
  have v: "(85 :: uint8) = quantize_none_sample 100 7" by code_simp
  have "quantize_none_sample (astype_float32 85) 7 = 85"
    by (rule quantize_none_idempotent [of 7 100 85]) (simp_all add: v [symmetric])
  with v show ?thesis by simp
qed

section \<open>LevelSelector: the largest cube\<close>

lemma levels_down_props:
  "2 \<le> L \<Longrightarrow> 2 \<le> levels_down L n \<and> (levels_down L n ^ 3 \<le> n \<or> levels_down L n = 2)"
proof (induction L n rule: levels_down.induct)
  case (1 L n)
  show ?case
  proof (cases "L ^ 3 > n \<and> L > 2")
    case True
    then have "levels_down L n = levels_down (L - 1) n"
      by (simp add: levels_down.simps [of L n])
    moreover from True have "2 \<le> L - 1" by simp
    ultimately show ?thesis using "1.IH" [OF True] by simp
  next
    case False
    then have "levels_down L n = L" by (auto simp add: levels_down.simps [of L n])
    with False "1.prems" show ?thesis by auto
  qed
qed

lemma levels_up_props:
  "2 \<le> L \<Longrightarrow> L \<le> levels_up L n \<and> n < (levels_up L n + 1) ^ 3 \<and>
     (L ^ 3 \<le> n \<longrightarrow> levels_up L n ^ 3 \<le> n) \<and> (n < (L + 1) ^ 3 \<longrightarrow> levels_up L n = L)"
proof (induction L n rule: levels_up.induct)
  case (1 L n)
  show ?case
  proof (cases "(L + 1) ^ 3 \<le> n")
    case True
    then have e: "levels_up L n = levels_up (L + 1) n"
      by (simp add: levels_up.simps [of L n])
    from "1.prems" have "2 \<le> L + 1" by simp
    from "1.IH" [OF True this] True show ?thesis unfolding e by auto
  next
    case False
    then have "levels_up L n = L" by (simp add: levels_up.simps [of L n])
    with False show ?thesis by auto
  qed
qed

lemma cube_bracket_unique:
  fixes a b n :: int
  assumes "0 \<le> a" "0 \<le> b" "a ^ 3 \<le> n" "n < (a + 1) ^ 3" "b ^ 3 \<le> n" "n < (b + 1) ^ 3"
  shows "a = b"
proof -
  from assms have "a ^ 3 < (b + 1) ^ 3" by linarith
  then have "a < b + 1" using assms(2) by (intro power_less_imp_less_base [of a 3 "b + 1"]) simp_all
  moreover from assms have "b ^ 3 < (a + 1) ^ 3" by linarith
  then have "b < a + 1" using assms(1) by (intro power_less_imp_less_base [of b 3 "a + 1"]) simp_all
  ultimately show ?thesis by linarith
qed

lemma levels_from_num_colors_props:
  assumes "2 \<le> n"
  shows "\<exists>L. levels_from_num_colors n = Inr L \<and> 2 \<le> L \<and> (n < 8 \<longrightarrow> L = 2) \<and>
           (8 \<le> n \<longrightarrow> L ^ 3 \<le> n \<and> n < (L + 1) ^ 3)"
proof -
  define g where "g = max 2 (round_cbrt n)"
  define d where "d = levels_down g n"
  define u where "u = levels_up d n"
  have g: "2 \<le> g" by (simp add: g_def)
  from levels_down_props [OF g, of n] have d: "2 \<le> d" "d ^ 3 \<le> n \<or> d = 2"
    by (simp_all add: d_def)
  from levels_up_props [OF d(1), of n]
  have u: "d \<le> u" "n < (u + 1) ^ 3" "d ^ 3 \<le> n \<longrightarrow> u ^ 3 \<le> n" "n < (d + 1) ^ 3 \<longrightarrow> u = d"
    by (simp_all add: u_def)
  have r: "levels_from_num_colors n = Inr (max 2 u)"
    using assms by (simp add: levels_from_num_colors_def Let_def g_def d_def u_def)
  from d u have u2: "2 \<le> u" by simp
  have small: "u = 2" if "n < 8"
  proof -
    from d(2) have "d = 2"
    proof
      assume "d ^ 3 \<le> n"
      moreover from d(1) have "(2::int) ^ 3 \<le> d ^ 3" by (intro power_mono) simp_all
      ultimately show ?thesis using that by simp
    qed simp
    with u(4) that show ?thesis by simp
  qed
  have big: "u ^ 3 \<le> n" if "8 \<le> n"
  proof -
    from d(2) that have "d ^ 3 \<le> n" by auto
    with u(3) show ?thesis by simp
  qed
  from r u2 small big u(2) show ?thesis by (simp add: max_def)
qed

text \<open>
  C2. For every \<open>num_colors\<close> in \<open>[2, 256]\<close>, \<^verbatim>\<open>_levels_from_num_colors\<close> returns the
  unique \<open>L \<ge> 2\<close> with \<open>L\<^sup>3 \<le> num_colors < (L+1)\<^sup>3\<close>, except that every
  \<open>num_colors < 8\<close> returns exactly 2. The proof does not use the upper bound 256, and
  the two loops reach this \<open>L\<close> from any starting value.
\<close>

theorem levels_from_num_colors_cube:
  assumes "2 \<le> num_colors"
  shows "\<exists>L. levels_from_num_colors num_colors = Inr L \<and> 2 \<le> L \<and>
           (num_colors < 8 \<longrightarrow> L = 2) \<and>
           (8 \<le> num_colors \<longrightarrow>
              L ^ 3 \<le> num_colors \<and> num_colors < (L + 1) ^ 3 \<and>
              (\<forall>L'. 2 \<le> L' \<and> L' ^ 3 \<le> num_colors \<and> num_colors < (L' + 1) ^ 3 \<longrightarrow> L' = L))"
proof -
  from levels_from_num_colors_props [OF assms] obtain L where
    L: "levels_from_num_colors num_colors = Inr L" "2 \<le> L" "num_colors < 8 \<longrightarrow> L = 2"
      "8 \<le> num_colors \<longrightarrow> L ^ 3 \<le> num_colors \<and> num_colors < (L + 1) ^ 3"
    by blast
  have "L' = L" if "8 \<le> num_colors" "2 \<le> L'" "L' ^ 3 \<le> num_colors" "num_colors < (L' + 1) ^ 3" for L'
    using cube_bracket_unique [of L' L num_colors] L that by simp
  with L show ?thesis by blast
qed

theorem levels_from_num_colors_cube_witness:
  "(2::int) \<le> 27 \<and> (\<exists>L. levels_from_num_colors 27 = Inr L \<and> L ^ 3 \<le> 27 \<and> 27 < (L + 1) ^ 3) \<and>
   (2::int) \<le> 5 \<and> levels_from_num_colors 5 = Inr 2"
  using levels_from_num_colors_cube [of 27] levels_from_num_colors_cube [of 5] by auto

section \<open>Ordered dithering: the degenerate case\<close>

lemma round_half_even_numeral [simp]:
  "round_half_even 0 = 0" "round_half_even 1 = 1" "round_half_even (numeral w) = numeral w"
  using round_half_even_of_int [of 0] round_half_even_of_int [of 1]
    round_half_even_of_int [of "numeral w"] by simp_all

lemma quantize_two_levels:
  "quantize_none_sample (astype_float32 s) 2 = (if s < 128 then 0 else 255)"
proof -
  define k where "k = uint s"
  have kb: "0 \<le> k" "k \<le> 255"
    using uint_bounded [of s] by (simp_all add: k_def)
  have f: "astype_float32 s = of_int k"
    by (simp add: astype_float32_def k_def)
  have lt: "s < 128 \<longleftrightarrow> k < 128"
    by (simp add: k_def word_less_def)
  have r: "round_half_even (of_int k / 255) = (if k < 128 then 0 else 1)"
  proof (cases "k < 128")
    case True
    then have "\<bar>(of_int k :: rat) / 255 - of_int 0\<bar> < 1 / 2" using kb by simp
    then have "round_half_even (of_int k / 255) = 0" by (rule round_half_even_near)
    with True show ?thesis by simp
  next
    case False
    then have "\<bar>(of_int k :: rat) / 255 - of_int 1\<bar> < 1 / 2" using kb by (simp add: abs_if field_simps)
    then have "round_half_even (of_int k / 255) = 1" by (rule round_half_even_near)
    with False show ?thesis by simp
  qed
  have "uint (quantize_none_sample (of_int k) 2) = (if k < 128 then 0 else 255)"
    unfolding quantize_none_sample_eq
    by (simp add: UniformQuantizer_def Let_def r clamp_def)
  then have "uint (quantize_none_sample (astype_float32 s) 2) = uint (if s < 128 then 0 else 255 :: uint8)"
    by (simp add: f lt)
  then show ?thesis by (simp only: word_uint_eq_iff)
qed

lemma dither_bayer_degenerate:
  "L < 2 \<Longrightarrow> dither_bayer arr L n = Some (Inr (quantize_none arr 2)) \<and>
     quantize_none arr 2 = map (map (pmap (\<lambda>s. if s < 128 then 0 else 255))) arr"
  by (simp add: dither_bayer_def quantize_none_def quantize_two_levels)

text \<open>
  C6. The claim: for every image and every \<open>L < 2\<close>, \<^verbatim>\<open>dither_bayer\<close> returns an all-zero
  image, bypassing the threshold computation.

  The guard of the source is \<^verbatim>\<open>if L < 2: return _quantize_none(arr, 2)\<close>: it quantizes
  to two levels, and a white pixel stays white.
\<close>

theorem dither_bayer_degenerate_counterexample:
  "dither_bayer [[(255, 255, 255)]] 1 4 = Some (Inr [[(255, 255, 255)]])"
  using dither_bayer_degenerate [of 1 "[[(255, 255, 255)]]" 4] by (simp add: pmap_def)

text \<open>
  C6 as amended: for every image, every \<open>L < 2\<close> and every size (also one that is no
  power of two), \<^verbatim>\<open>dither_bayer\<close> returns the image quantized to two levels without
  dithering, every sample below 128 becoming 0 and every other sample 255; the
  threshold matrix is not computed.
\<close>

theorem dither_bayer_two_levels:
  assumes "L < 2"
  shows "dither_bayer arr L n = Some (Inr (quantize_none arr 2)) \<and>
         quantize_none arr 2 = map (map (pmap (\<lambda>s. if s < 128 then 0 else 255))) arr"
  using assms by (rule dither_bayer_degenerate)

theorem dither_bayer_two_levels_witness:
  "(0::int) < 2 \<and>
   dither_bayer [[(255, 255, 255), (100, 127, 128)]] 0 3 = Some (Inr [[(255, 255, 255), (0, 0, 255)]])"
  using dither_bayer_two_levels [of 0 "[[(255, 255, 255), (100, 127, 128)]]" 3]
  by (simp add: pmap_def)

section \<open>The Bayer matrix\<close>

lemma power_of_two_and:
  fixes n :: int
  assumes "0 < n" and "n AND (n - 1) = 0"
  shows "\<exists>k::nat. n = 2 ^ k"
  using assms
proof (induction "nat n" arbitrary: n rule: less_induct)
  case less
  show ?case
  proof (cases "n = 1")
    case True
    then have "n = 2 ^ (0::nat)" by simp
    then show ?thesis by blast
  next
    case False
    with less.prems have n2: "2 \<le> n" by simp
    have rec: "n AND (n - 1) = of_bool (odd n \<and> odd (n - 1)) + 2 * ((n div 2) AND ((n - 1) div 2))"
      by (rule and_int_rec)
    show ?thesis
    proof (cases "even n")
      case True
      then have d: "(n - 1) div 2 = n div 2 - 1" by presburger
      from rec True less.prems(2) have z: "(n div 2) AND (n div 2 - 1) = 0"
        by (simp add: d)
      from n2 have pos: "0 < n div 2" by simp
      from n2 have "nat (n div 2) < nat n" by simp
      from less.hyps [OF this pos z] obtain k :: nat where "n div 2 = 2 ^ k" by blast
      with True have "n = 2 ^ Suc k" by auto
      then show ?thesis by blast
    next
      case False
      then have d: "(n - 1) div 2 = n div 2" by presburger
      from rec False less.prems(2) have "(n div 2) AND (n div 2) = 0"
        by (simp add: d)
      then have "n div 2 = 0" by simp
      with n2 show ?thesis by simp
    qed
  qed
qed

lemma bayer_matrix_not_power:
  assumes "\<nexists>k::nat. n = 2 ^ k"
  shows "bayer_matrix n = Some (Inl ValueError)"
proof -
  have "n AND (n - 1) \<noteq> 0 \<or> n \<le> 0"
    using power_of_two_and [of n] assms by force
  then show ?thesis by (simp add: bayer_matrix_def)
qed

lemma build_1: "build 1 = Some [[0]]"
  by (simp add: build.simps [of 1])

lemma build_2: "build 2 = Some [[0, 2], [3, 1]]"
  by (simp add: build.simps [of 2] build_1 np_block_def madd_def)

lemma build_4: "build 4 = Some [[0, 8, 2, 10], [12, 4, 14, 6], [3, 11, 1, 9], [15, 7, 13, 5]]"
  by (simp add: build.simps [of 4] build_2 np_block_def madd_def)

lemma build_8:
  "build 8 = Some
     [[0, 32, 8, 40, 2, 34, 10, 42], [48, 16, 56, 24, 50, 18, 58, 26],
      [12, 44, 4, 36, 14, 46, 6, 38], [60, 28, 52, 20, 62, 30, 54, 22],
      [3, 35, 11, 43, 1, 33, 9, 41], [51, 19, 59, 27, 49, 17, 57, 25],
      [15, 47, 7, 39, 13, 45, 5, 37], [63, 31, 55, 23, 61, 29, 53, 21]]"
  by (simp add: build.simps [of 8] build_4 np_block_def madd_def)

lemma bayer_matrix_build:
  "n \<in> {1, 2, 4, 8} \<Longrightarrow> bayer_matrix n = map_option Inr (build n)"
  by (auto simp: bayer_matrix_def)

lemma perm_range:
  fixes xs :: "int list"
  assumes "distinct xs" and "set xs \<subseteq> {0..<m}" and "int (length xs) = m"
  shows "set xs = {0..<m}"
proof (rule card_subset_eq)
  show "finite {0..<m}" by simp
  show "set xs \<subseteq> {0..<m}" by fact
  have "card (set xs) = length xs" using assms(1) by (rule distinct_card)
  with assms(3) show "card (set xs) = card {0..<m}" by simp
qed

lemma perm_2: "distinct (concat [[0, 2], [3, 1 :: int]]) \<and> set (concat [[0, 2], [3, 1 :: int]]) = {0..<2 * 2}"
proof -
  have d: "distinct (concat [[0, 2], [3, 1 :: int]])" by simp
  moreover have "set (concat [[0, 2], [3, 1 :: int]]) = {0..<2 * 2}"
    by (rule perm_range [OF d]) simp_all
  ultimately show ?thesis by simp
qed

lemma perm_4: "distinct (concat [[0, 8, 2, 10], [12, 4, 14, 6], [3, 11, 1, 9], [15, 7, 13, 5 :: int]]) \<and>
   set (concat [[0, 8, 2, 10], [12, 4, 14, 6], [3, 11, 1, 9], [15, 7, 13, 5 :: int]]) = {0..<4 * 4}"
proof -
  have d: "distinct (concat [[0, 8, 2, 10], [12, 4, 14, 6], [3, 11, 1, 9], [15, 7, 13, 5 :: int]])" by simp
  moreover have "set (concat [[0, 8, 2, 10], [12, 4, 14, 6], [3, 11, 1, 9], [15, 7, 13, 5 :: int]]) = {0..<4 * 4}"
    by (rule perm_range [OF d]) simp_all
  ultimately show ?thesis by simp
qed

lemma perm_8: "distinct (concat [[0, 32, 8, 40, 2, 34, 10, 42], [48, 16, 56, 24, 50, 18, 58, 26],
      [12, 44, 4, 36, 14, 46, 6, 38], [60, 28, 52, 20, 62, 30, 54, 22],
      [3, 35, 11, 43, 1, 33, 9, 41], [51, 19, 59, 27, 49, 17, 57, 25],
      [15, 47, 7, 39, 13, 45, 5, 37], [63, 31, 55, 23, 61, 29, 53, 21 :: int]]) \<and>
   set (concat [[0, 32, 8, 40, 2, 34, 10, 42], [48, 16, 56, 24, 50, 18, 58, 26],
      [12, 44, 4, 36, 14, 46, 6, 38], [60, 28, 52, 20, 62, 30, 54, 22],
      [3, 35, 11, 43, 1, 33, 9, 41], [51, 19, 59, 27, 49, 17, 57, 25],
      [15, 47, 7, 39, 13, 45, 5, 37], [63, 31, 55, 23, 61, 29, 53, 21 :: int]]) = {0..<8 * 8}"
proof -
  have d: "distinct (concat [[0, 32, 8, 40, 2, 34, 10, 42], [48, 16, 56, 24, 50, 18, 58, 26],
      [12, 44, 4, 36, 14, 46, 6, 38], [60, 28, 52, 20, 62, 30, 54, 22],
      [3, 35, 11, 43, 1, 33, 9, 41], [51, 19, 59, 27, 49, 17, 57, 25],
      [15, 47, 7, 39, 13, 45, 5, 37], [63, 31, 55, 23, 61, 29, 53, 21 :: int]])" by simp
  moreover have "set (concat [[0, 32, 8, 40, 2, 34, 10, 42], [48, 16, 56, 24, 50, 18, 58, 26],
      [12, 44, 4, 36, 14, 46, 6, 38], [60, 28, 52, 20, 62, 30, 54, 22],
      [3, 35, 11, 43, 1, 33, 9, 41], [51, 19, 59, 27, 49, 17, 57, 25],
      [15, 47, 7, 39, 13, 45, 5, 37], [63, 31, 55, 23, 61, 29, 53, 21 :: int]]) = {0..<8 * 8}"
    by (rule perm_range [OF d]) simp_all
  ultimately show ?thesis by simp
qed

lemma bayer_248:
  assumes "n \<in> {2, 4, 8}"
  shows "\<exists>M P. bayer_matrix n = Some (Inr M) \<and> bayer_matrix (n div 2) = Some (Inr P) \<and>
           length M = nat n \<and> list_all (\<lambda>row. length row = nat n) M \<and>
           distinct (concat M) \<and> set (concat M) = {0..<n * n} \<and>
           M = np_block (madd (map (map (\<lambda>v. 4 * v)) P) 0) (madd (map (map (\<lambda>v. 4 * v)) P) 2)
                        (madd (map (map (\<lambda>v. 4 * v)) P) 3) (madd (map (map (\<lambda>v. 4 * v)) P) 1)"
proof -
  from assms consider "n = 2" | "n = 4" | "n = 8" by auto
  then show ?thesis
  proof cases
    case 1
    have a: "bayer_matrix 2 = Some (Inr [[0, 2], [3, 1]])"
      by (simp add: bayer_matrix_build build_2)
    have b: "bayer_matrix (2 div 2) = Some (Inr [[0]])"
      by (simp add: bayer_matrix_build build_1)
    have c: "[[0, 2], [3, 1]] =
        np_block (madd (map (map (\<lambda>v. 4 * v)) [[0]]) 0) (madd (map (map (\<lambda>v. 4 * v)) [[0]]) 2)
                 (madd (map (map (\<lambda>v. 4 * v)) [[0]]) 3) (madd (map (map (\<lambda>v. 4 * v)) [[0]]) 1)"
      by (simp add: np_block_def madd_def)
    have d: "length [[0, 2], [3, 1 :: int]] = nat 2"
      "list_all (\<lambda>row. length row = nat 2) [[0, 2], [3, 1 :: int]]" by simp_all
    from a b c d perm_2 show ?thesis unfolding 1 by blast
  next
    case 2
    have a: "bayer_matrix 4 = Some (Inr [[0, 8, 2, 10], [12, 4, 14, 6], [3, 11, 1, 9], [15, 7, 13, 5]])"
      by (simp add: bayer_matrix_build build_4)
    have b: "bayer_matrix (4 div 2) = Some (Inr [[0, 2], [3, 1]])"
      by (simp add: bayer_matrix_build build_2)
    have c: "[[0, 8, 2, 10], [12, 4, 14, 6], [3, 11, 1, 9], [15, 7, 13, 5]] =
        np_block (madd (map (map (\<lambda>v. 4 * v)) [[0, 2], [3, 1]]) 0) (madd (map (map (\<lambda>v. 4 * v)) [[0, 2], [3, 1]]) 2)
                 (madd (map (map (\<lambda>v. 4 * v)) [[0, 2], [3, 1]]) 3) (madd (map (map (\<lambda>v. 4 * v)) [[0, 2], [3, 1]]) 1)"
      by (simp add: np_block_def madd_def)
    have d: "length [[0, 8, 2, 10], [12, 4, 14, 6], [3, 11, 1, 9], [15, 7, 13, 5 :: int]] = nat 4"
      "list_all (\<lambda>row. length row = nat 4) [[0, 8, 2, 10], [12, 4, 14, 6], [3, 11, 1, 9], [15, 7, 13, 5 :: int]]"
      by simp_all
    from a b c d perm_4 show ?thesis unfolding 2 by blast
  next
    case 3
    have a: "bayer_matrix 8 = Some (Inr
     [[0, 32, 8, 40, 2, 34, 10, 42], [48, 16, 56, 24, 50, 18, 58, 26],
      [12, 44, 4, 36, 14, 46, 6, 38], [60, 28, 52, 20, 62, 30, 54, 22],
      [3, 35, 11, 43, 1, 33, 9, 41], [51, 19, 59, 27, 49, 17, 57, 25],
      [15, 47, 7, 39, 13, 45, 5, 37], [63, 31, 55, 23, 61, 29, 53, 21]])"
      by (simp add: bayer_matrix_build build_8)
    have b: "bayer_matrix (8 div 2) = Some (Inr [[0, 8, 2, 10], [12, 4, 14, 6], [3, 11, 1, 9], [15, 7, 13, 5]])"
      by (simp add: bayer_matrix_build build_4)
    have c: "[[0, 32, 8, 40, 2, 34, 10, 42], [48, 16, 56, 24, 50, 18, 58, 26],
      [12, 44, 4, 36, 14, 46, 6, 38], [60, 28, 52, 20, 62, 30, 54, 22],
      [3, 35, 11, 43, 1, 33, 9, 41], [51, 19, 59, 27, 49, 17, 57, 25],
      [15, 47, 7, 39, 13, 45, 5, 37], [63, 31, 55, 23, 61, 29, 53, 21]] =
        np_block (madd (map (map (\<lambda>v. 4 * v)) [[0, 8, 2, 10], [12, 4, 14, 6], [3, 11, 1, 9], [15, 7, 13, 5]]) 0)
                 (madd (map (map (\<lambda>v. 4 * v)) [[0, 8, 2, 10], [12, 4, 14, 6], [3, 11, 1, 9], [15, 7, 13, 5]]) 2)
                 (madd (map (map (\<lambda>v. 4 * v)) [[0, 8, 2, 10], [12, 4, 14, 6], [3, 11, 1, 9], [15, 7, 13, 5]]) 3)
                 (madd (map (map (\<lambda>v. 4 * v)) [[0, 8, 2, 10], [12, 4, 14, 6], [3, 11, 1, 9], [15, 7, 13, 5]]) 1)"
      by (simp add: np_block_def madd_def)
    have d: "length [[0, 32, 8, 40, 2, 34, 10, 42], [48, 16, 56, 24, 50, 18, 58, 26],
      [12, 44, 4, 36, 14, 46, 6, 38], [60, 28, 52, 20, 62, 30, 54, 22],
      [3, 35, 11, 43, 1, 33, 9, 41], [51, 19, 59, 27, 49, 17, 57, 25],
      [15, 47, 7, 39, 13, 45, 5, 37], [63, 31, 55, 23, 61, 29, 53, 21 :: int]] = nat 8"
      "list_all (\<lambda>row. length row = nat 8) [[0, 32, 8, 40, 2, 34, 10, 42], [48, 16, 56, 24, 50, 18, 58, 26],
      [12, 44, 4, 36, 14, 46, 6, 38], [60, 28, 52, 20, 62, 30, 54, 22],
      [3, 35, 11, 43, 1, 33, 9, 41], [51, 19, 59, 27, 49, 17, 57, 25],
      [15, 47, 7, 39, 13, 45, 5, 37], [63, 31, 55, 23, 61, 29, 53, 21 :: int]]"
      by simp_all
    from a b c d perm_8 show ?thesis unfolding 3 by blast
  qed
qed

lemma three_not_power: "\<nexists>k::nat. (3::int) = 2 ^ k"
proof
  assume "\<exists>k::nat. (3::int) = 2 ^ k"
  then obtain k :: nat where k: "(3::int) = 2 ^ k" by blast
  show False
  proof (cases k)
    case 0
    with k show False by simp
  next
    case (Suc j)
    with k have "(3::int) = 2 * 2 ^ j" by simp
    then show False by presburger
  qed
qed

text \<open>
  C7. For every \<open>n\<close> in \<open>{2, 4, 8}\<close>, \<^verbatim>\<open>_bayer_matrix(n)\<close> returns an \<open>n \<times> n\<close> matrix that
  contains each integer of \<open>[0, n\<^sup>2)\<close> exactly once and is built from the matrix \<open>P\<close> for
  \<open>n / 2\<close> with \<open>4P\<close> top-left, \<open>4P + 2\<close> top-right, \<open>4P + 3\<close> bottom-left and \<open>4P + 1\<close>
  bottom-right; for every \<open>n\<close> that is no power of two it fails with \<open>ValueError\<close>.
\<close>

theorem bayer_matrix_permutation:
  "(n \<in> {2, 4, 8} \<longrightarrow>
      (\<exists>M P. bayer_matrix n = Some (Inr M) \<and> bayer_matrix (n div 2) = Some (Inr P) \<and>
         length M = nat n \<and> list_all (\<lambda>row. length row = nat n) M \<and>
         distinct (concat M) \<and> set (concat M) = {0..<n * n} \<and>
         M = np_block (madd (map (map (\<lambda>v. 4 * v)) P) 0) (madd (map (map (\<lambda>v. 4 * v)) P) 2)
                      (madd (map (map (\<lambda>v. 4 * v)) P) 3) (madd (map (map (\<lambda>v. 4 * v)) P) 1))) \<and>
   ((\<nexists>k::nat. n = 2 ^ k) \<longrightarrow> bayer_matrix n = Some (Inl ValueError))"
  using bayer_248 [of n] bayer_matrix_not_power [of n] by blast

theorem bayer_matrix_permutation_witness:
  "(4::int) \<in> {2, 4, 8} \<and>
   (\<exists>M. bayer_matrix 4 = Some (Inr M) \<and> distinct (concat M) \<and> set (concat M) = {0..<4 * 4}) \<and>
   (\<nexists>k::nat. (3::int) = 2 ^ k) \<and> bayer_matrix 3 = Some (Inl ValueError)"
proof -
  have a: "(4::int) \<in> {2, 4, 8}" by simp
  from bayer_matrix_permutation [of 4] a
  have "\<exists>M. bayer_matrix 4 = Some (Inr M) \<and> distinct (concat M) \<and> set (concat M) = {0..<4 * 4}"
    by blast
  moreover from bayer_matrix_permutation [of 3] three_not_power
  have "bayer_matrix 3 = Some (Inl ValueError)" by blast
  ultimately show ?thesis using a three_not_power by blast
qed

section \<open>Ordered dithering: the quantization of the biased sample\<close>


















section \<open>Floyd-Steinberg on concrete images\<close>

lemma py_range_1: "py_range 1 = [0]" by code_simp
lemma py_range_2: "py_range 2 = [0, 1]" by code_simp

lemma flat_f32: "to_float32 [[(100, 100, 100), (100, 100, 100)]] = [[(100, 100, 100), (100, 100, 100)]]"
  by code_simp

lemma flat_impl_0:
  "floyd_impl_pixel 1 2 2 0 1 0 [[(100, 100, 100), (100, 100, 100)]] = [[(0, 0, 0), (575 / 4, 575 / 4, 575 / 4)]]"
  by code_simp

lemma flat_impl_1:
  "floyd_impl_pixel 1 2 2 0 1 1 [[(0, 0, 0), (575 / 4, 575 / 4, 575 / 4)]] = [[(0, 0, 0), (255, 255, 255)]]"
  by code_simp

lemma flat_loop_0:
  "floyd_loop_pixel 1 2 2 0 1 0 [[(100, 100, 100), (100, 100, 100)]] = [[(0, 0, 0), (100, 100, 100)]]"
  by code_simp

lemma flat_loop_1:
  "floyd_loop_pixel 1 2 2 0 1 1 [[(0, 0, 0), (100, 100, 100)]] = [[(0, 0, 0), (0, 0, 0)]]"
  by code_simp

lemma flat_finish_numba: "finish [[(0, 0, 0), (255, 255, 255)]] = [[(0, 0, 0), (255, 255, 255)]]"
  by code_simp

lemma flat_finish_python: "finish [[(0, 0, 0), (0, 0, 0)]] = [[(0, 0, 0), (0, 0, 0)]]"
  by code_simp

lemma flat_kernel:
  "floyd_impl [[(100, 100, 100), (100, 100, 100)]] 2 serpentine = Some (Inr [[(0, 0, 0), (255, 255, 255)]])"
  by (simp add: floyd_impl_def numba_kernel_def numba_rows_def height_def width_def py_range_1
      numba_while.simps flat_impl_0 flat_impl_1)

lemma flat_python:
  "python_rows (floyd_loop_pixel 1 2 2) 1 2 serpentine [[(100, 100, 100), (100, 100, 100)]] = [[(0, 0, 0), (0, 0, 0)]]"
  by (simp add: python_rows_def py_range_1 py_range_2 flat_loop_0 flat_loop_1)

lemma flat_numba_result:
  "dither_floyd True [[(100, 100, 100), (100, 100, 100)]] 2 serpentine = Some (Inr [[(0, 0, 0), (255, 255, 255)]])"
  using flat_kernel [of serpentine]
  by (simp add: dither_floyd_def diffusion_method_def flat_f32 floyd_impl_def flat_finish_numba)

lemma flat_python_result:
  "dither_floyd False [[(100, 100, 100), (100, 100, 100)]] 2 serpentine = Some (Inr [[(0, 0, 0), (0, 0, 0)]])"
  by (simp add: dither_floyd_def diffusion_method_def flat_f32 height_def width_def flat_python flat_finish_python)















text \<open>
  C10. The claim: the Numba kernel \<^verbatim>\<open>_floyd_impl\<close> and the pure-Python loop of
  \<^verbatim>\<open>dither_floyd\<close> leave the same working buffer, so the result does not depend on
  whether Numba is available.

  The kernel copies the old value into scalars before it stores the quantized one. The
  pure-Python loop keeps \<^verbatim>\<open>old = work[y, x]\<close>, a view of the buffer, stores
  \<^verbatim>\<open>work[y, x] = new\<close> through which \<open>old\<close> changes too, and then computes
  \<^verbatim>\<open>err = old - new\<close>, which is 0: no error is ever diffused. On the \<open>1 \<times> 2\<close> image of
  value 100 with \<open>L = 2\<close> the kernel carries \<open>100 \<times> 7/16\<close> to the second pixel, which
  becomes 255; the loop leaves it at 100, which becomes 0.
\<close>

theorem floyd_paths_differ:
  "floyd_impl (to_float32 [[(100, 100, 100), (100, 100, 100)]]) 2 serpentine =
     Some (Inr [[(0, 0, 0), (255, 255, 255)]]) \<and>
   python_rows (floyd_loop_pixel 1 2 2) 1 2 serpentine (to_float32 [[(100, 100, 100), (100, 100, 100)]]) =
     [[(0, 0, 0), (0, 0, 0)]] \<and>
   dither_floyd True [[(100, 100, 100), (100, 100, 100)]] 2 serpentine =
     Some (Inr [[(0, 0, 0), (255, 255, 255)]]) \<and>
   dither_floyd False [[(100, 100, 100), (100, 100, 100)]] 2 serpentine =
     Some (Inr [[(0, 0, 0), (0, 0, 0)]])"
  using flat_kernel [of serpentine] flat_python [of serpentine]
    flat_numba_result [of serpentine] flat_python_result [of serpentine]
  by (simp add: flat_f32)

section \<open>The dispatcher\<close>




section \<open>Every output sample is a level\<close>

lemma map_length_set_pixel: "map length (set_pixel y x p w) = map length w"
proof (cases "nat y < length w")
  case True
  then show ?thesis
    by (simp add: set_pixel_def map_update list_update_same_conv)
next
  case False
  then show ?thesis by (simp add: set_pixel_def list_update_beyond)
qed

lemma nth_set_pixel_other:
  "(r, c) \<noteq> (nat y, nat x) \<Longrightarrow> set_pixel y x p w ! r ! c = w ! r ! c"
proof (cases "r = nat y")
  case False
  then show ?thesis by (simp add: set_pixel_def)
next
  case True
  assume "(r, c) \<noteq> (nat y, nat x)"
  with True have c: "c \<noteq> nat x" by simp
  show ?thesis
  proof (cases "nat y < length w")
    case True
    with \<open>r = nat y\<close> c show ?thesis by (simp add: set_pixel_def)
  next
    case False
    then show ?thesis by (simp add: set_pixel_def list_update_beyond)
  qed
qed


lemma keeps_set_pixel: "\<not> V (nat y, nat x) \<Longrightarrow> keeps V (set_pixel y x p)"
  unfolding keeps_def
  by (metis map_length_set_pixel nth_set_pixel_other)


lemma keeps_set_sample: "\<not> V (nat y, nat x) \<Longrightarrow> keeps V (set_sample y x c v)"
  unfolding keeps_def set_sample_def
  by (metis map_length_set_pixel nth_set_pixel_other)





















































end
